theory Spec2Isabelle
  imports Main "HOL-Library.Word"
begin

unbundle bit_operations_syntax

section \<open>Data model of \<open>knx/proto/tpdu.go\<close>\<close>

type_synonym byte = "8 word"

text \<open>\<open>type TPCI uint8\<close> and its four constants.\<close>

type_synonym TPCI = "8 word"

definition UnnumberedDataPacket :: TPCI where
  "UnnumberedDataPacket = 0"

definition NumberedDataPacket :: TPCI where
  "NumberedDataPacket = 1"

definition UnnumberedControlPacket :: TPCI where
  "UnnumberedControlPacket = 2"

definition NumberedControlPacket :: TPCI where
  "NumberedControlPacket = 3"

text \<open>\<open>type APCI uint8\<close>: the sixteen named constants are the values 0 to 15, but the
  type itself is a full byte.\<close>

type_synonym APCI = "8 word"

text \<open>\<open>type TPDU struct\<close>. A nil slice and an empty slice are both the empty list.\<close>

record TPDU =
  PacketType :: TPCI
  SeqNumber :: byte
  Control :: byte
  Info :: APCI
  Data :: "byte list"

text \<open>The errors \<open>ReadFrom\<close> and \<open>WriteTo\<close> can return. \<open>IoFailure\<close> stands for any
  error of the underlying reader or writer other than end of stream, with its code.\<close>

datatype error =
    TruncatedInput
  | ErrDataUnitTooShort
  | Unreachable
  | IoFailure nat

section \<open>The octet source and sink\<close>

text \<open>An \<open>io.Reader\<close>: the bytes it still delivers, and how it ends once they are used
  up: with end of stream (\<open>None\<close>) or with an I/O failure.\<close>

record reader =
  pending :: "byte list"
  fault :: "nat option"

definition bytes_Reader :: "byte list \<Rightarrow> reader" where
  "bytes_Reader bs = \<lparr>pending = bs, fault = None\<rparr>"

text \<open>Modelled from the spec: \<open>binary.ReadSequence(r, &head)\<close> of package \<open>knx/binary\<close>,
  which is not among the sources. With a single \<open>uint8\<close> destination it reads exactly one
  byte; it fails with \<open>TruncatedInput\<close> if the source is exhausted before one byte is
  available, and hands on an I/O failure of the source as it is.\<close>

definition ReadSequence :: "reader \<Rightarrow> (error + byte) \<times> reader" where
  "ReadSequence r =
     (case pending r of
        [] \<Rightarrow> (case fault r of
                 None \<Rightarrow> (Inl TruncatedInput, r)
               | Some e \<Rightarrow> (Inl (IoFailure e), r))
      | b # bs \<Rightarrow> (Inr b, r\<lparr>pending := bs\<rparr>))"

text \<open>\<open>bytes.Buffer.ReadFrom\<close>: reads until the source ends. End of stream is not an
  error; any other error of the source is returned.\<close>

definition Buffer_ReadFrom :: "reader \<Rightarrow> (error + byte list) \<times> reader" where
  "Buffer_ReadFrom r =
     (case fault r of
        None \<Rightarrow> (Inr (pending r), r\<lparr>pending := []\<rparr>)
      | Some e \<Rightarrow> (Inl (IoFailure e), r\<lparr>pending := []\<rparr>))"

text \<open>An \<open>io.Writer\<close>: the bytes written so far, and whether a write fails.\<close>

record writer =
  written :: "byte list"
  wfault :: "nat option"

definition bytes_Writer :: writer where
  "bytes_Writer = \<lparr>written = [], wfault = None\<rparr>"

definition Write :: "writer \<Rightarrow> byte list \<Rightarrow> error option \<times> writer" where
  "Write w bs =
     (case wfault w of
        None \<Rightarrow> (None, w\<lparr>written := written w @ bs\<rparr>)
      | Some e \<Rightarrow> (Some (IoFailure e), w))"

section \<open>\<open>TPDU.ReadFrom\<close>\<close>

definition ReadFrom :: "reader \<Rightarrow> (error + TPDU) \<times> reader" where
  "ReadFrom r =
     (case ReadSequence r of
        (Inl err, r1) \<Rightarrow> (Inl err, r1)
      | (Inr head, r1) \<Rightarrow>
          (let packetType = drop_bit 6 head AND 3;
               seqNumber = drop_bit 2 head AND 15
           in if packetType = UnnumberedControlPacket \<or> packetType = NumberedControlPacket
              then (Inr \<lparr>PacketType = packetType, SeqNumber = seqNumber,
                         Control = head AND 3, Info = 0, Data = []\<rparr>, r1)
              else if packetType = UnnumberedDataPacket \<or> packetType = NumberedDataPacket
              then (case Buffer_ReadFrom r1 of
                      (Inl err, r2) \<Rightarrow> (Inl err, r2)
                    | (Inr data, r2) \<Rightarrow>
                        if length data < 1 then (Inl ErrDataUnitTooShort, r2)
                        else
                          (let info = push_bit 2 (head AND 3) OR (drop_bit 6 (data ! 0) AND 3);
                               appData = (if length data > 1 then drop 1 data
                                          else [data ! 0 AND 63])
                           in (Inr \<lparr>PacketType = packetType, SeqNumber = seqNumber,
                                     Control = 0, Info = info, Data = appData\<rparr>, r2)))
              else (Inl Unreachable, r1)))"

section \<open>\<open>TPDU.WriteTo\<close>\<close>

text \<open>The byte slice \<open>buffer\<close> that \<open>WriteTo\<close> builds before it writes it.\<close>

definition WriteTo_buffer :: "TPDU \<Rightarrow> byte list" where
  "WriteTo_buffer tpdu =
     (let b0 = push_bit 6 (PacketType tpdu AND 3) OR push_bit 2 (SeqNumber tpdu AND 15)
      in if PacketType tpdu = UnnumberedControlPacket \<or> PacketType tpdu = NumberedControlPacket
         then [b0 OR (Control tpdu AND 3)]
         else if PacketType tpdu = UnnumberedDataPacket \<or> PacketType tpdu = NumberedDataPacket
         then (let b0' = b0 OR (drop_bit 2 (Info tpdu) AND 3)
               in if length (Data tpdu) > 0
                  then (let buffer = b0' # Data tpdu
                        in buffer[1 := (buffer ! 1 AND 63) OR push_bit 6 (Info tpdu AND 3)])
                  else [b0', push_bit 6 (Info tpdu AND 3)])
         else [b0])"

definition WriteTo :: "TPDU \<Rightarrow> writer \<Rightarrow> error option \<times> writer" where
  "WriteTo tpdu w = Write w (WriteTo_buffer tpdu)"

text \<open>Encoding into an empty in-memory sink and decoding what was written.\<close>

definition encode :: "TPDU \<Rightarrow> byte list" where
  "encode tpdu = written (snd (WriteTo tpdu bytes_Writer))"

definition decode :: "byte list \<Rightarrow> error + TPDU" where
  "decode bs = fst (ReadFrom (bytes_Reader bs))"

section \<open>Auxiliary facts\<close>

lemmas TPCI_defs = UnnumberedDataPacket_def NumberedDataPacket_def
  UnnumberedControlPacket_def NumberedControlPacket_def

lemmas io_defs = ReadSequence_def Buffer_ReadFrom_def bytes_Reader_def bytes_Writer_def Write_def

subsection \<open>Masks as bit truncation\<close>

lemma and_3_take_bit: "x AND 3 = take_bit 2 (x::byte)"
  by (simp add: take_bit_eq_mask mask_eq_exp_minus_1)

lemma and_15_take_bit: "x AND 15 = take_bit 4 (x::byte)"
  by (simp add: take_bit_eq_mask mask_eq_exp_minus_1)

lemma and_63_take_bit: "x AND 63 = take_bit 6 (x::byte)"
  by (simp add: take_bit_eq_mask mask_eq_exp_minus_1)

lemmas mask_take_bit = and_3_take_bit and_15_take_bit and_63_take_bit

lemma le_15_and_15: "x \<le> 15 \<Longrightarrow> x AND 15 = (x::byte)"
proof -
  assume "x \<le> 15"
  then have "x < 2 ^ 4" by (simp add: word_le_nat_alt word_less_nat_alt)
  then have "x AND mask 4 = x" by (rule less_mask_eq)
  then show ?thesis by (simp add: mask_eq_exp_minus_1)
qed

lemma le_63_and_63: "x \<le> 63 \<Longrightarrow> x AND 63 = (x::byte)"
proof -
  assume "x \<le> 63"
  then have "x < 2 ^ 6" by (simp add: word_le_nat_alt word_less_nat_alt)
  then have "x AND mask 6 = x" by (rule less_mask_eq)
  then show ?thesis by (simp add: mask_eq_exp_minus_1)
qed

lemma le_3_and_3: "x \<le> 3 \<Longrightarrow> x AND 3 = (x::byte)"
proof -
  assume "x \<le> 3"
  then have "x < 2 ^ 2" by (simp add: word_le_nat_alt word_less_nat_alt)
  then have "x AND mask 2 = x" by (rule less_mask_eq)
  then show ?thesis by (simp add: mask_eq_exp_minus_1)
qed

text \<open>A two-bit field takes one of four values.\<close>

lemma two_bit_cases: "x AND 3 = 0 \<or> x AND 3 = 1 \<or> x AND 3 = 2 \<or> x AND 3 = (3::byte)"
proof -
  have "x AND 3 \<le> 3" by (rule word_and_le1)
  then have "unat (x AND 3) \<le> 3" by (simp add: word_le_nat_alt)
  then have "unat (x AND 3) = 0 \<or> unat (x AND 3) = 1 \<or> unat (x AND 3) = 2 \<or> unat (x AND 3) = 3"
    by arith
  then show ?thesis by (auto simp: word_unat_eq_iff)
qed

subsection \<open>Fields of an encoded header byte\<close>

lemma header_kind:
  "drop_bit 6 ((push_bit 6 (p AND 3) OR push_bit 2 (s AND 15)) OR (c AND 3)) AND 3 = p AND (3::byte)"
  unfolding mask_take_bit by (rule bit_word_eqI) (auto simp: bit_simps)

lemma header_seq:
  "drop_bit 2 ((push_bit 6 (p AND 3) OR push_bit 2 (s AND 15)) OR (c AND 3)) AND 15 = s AND (15::byte)"
  unfolding mask_take_bit by (rule bit_word_eqI) (auto simp: bit_simps)

lemma header_low:
  "((push_bit 6 (p AND 3) OR push_bit 2 (s AND 15)) OR (c AND 3)) AND 3 = c AND (3::byte)"
  unfolding mask_take_bit by (rule bit_word_eqI) (auto simp: bit_simps)

lemma continuation_high:
  "drop_bit 6 ((d AND 63) OR push_bit 6 (i AND 3)) AND 3 = i AND (3::byte)"
  unfolding mask_take_bit by (rule bit_word_eqI) (auto simp: bit_simps)

lemma continuation_low:
  "((d AND 63) OR push_bit 6 (i AND 3)) AND 63 = d AND (63::byte)"
  unfolding mask_take_bit by (rule bit_word_eqI) (auto simp: bit_simps)

lemma synthetic_high: "drop_bit 6 (push_bit 6 (i AND 3)) AND 3 = i AND (3::byte)"
  unfolding mask_take_bit by (rule bit_word_eqI) (auto simp: bit_simps)

lemma synthetic_low: "push_bit 6 (i AND 3) AND 63 = (0::byte)"
  unfolding mask_take_bit by (rule bit_word_eqI) (auto simp: bit_simps)

lemma info_join: "push_bit 2 (drop_bit 2 i AND 3) OR (i AND 3) = i AND (15::byte)"
  unfolding mask_take_bit
proof (rule bit_word_eqI)
  fix n :: nat
  assume "n < LENGTH(8)"
  have "2 \<le> n \<Longrightarrow> Suc (Suc (n - 2)) = n" by simp
  then show "bit (push_bit 2 (take_bit 2 (drop_bit 2 i)) OR take_bit 2 i) n = bit (take_bit 4 i) n"
    by (auto simp: bit_simps)
qed

subsection \<open>The branches of \<open>ReadFrom\<close> and \<open>WriteTo\<close>\<close>

lemma ReadFrom_exhausted:
  "pending r = [] \<Longrightarrow>
   ReadFrom r = (Inl (case fault r of None \<Rightarrow> TruncatedInput | Some e \<Rightarrow> IoFailure e), r)"
  by (simp add: ReadFrom_def ReadSequence_def split: option.split)

lemma ReadFrom_control:
  assumes "pending r = head # rest"
    and "drop_bit 6 head AND 3 = 2 \<or> drop_bit 6 head AND 3 = 3"
  shows "ReadFrom r =
    (Inr \<lparr>PacketType = drop_bit 6 head AND 3, SeqNumber = drop_bit 2 head AND 15,
          Control = head AND 3, Info = 0, Data = []\<rparr>, r\<lparr>pending := rest\<rparr>)"
  using assms by (auto simp add: ReadFrom_def ReadSequence_def TPCI_defs Let_def)

lemma ReadFrom_data_fault:
  assumes "pending r = head # rest"
    and "drop_bit 6 head AND 3 = 0 \<or> drop_bit 6 head AND 3 = 1"
    and "fault r = Some e"
  shows "ReadFrom r = (Inl (IoFailure e), r\<lparr>pending := []\<rparr>)"
  using assms by (auto simp add: ReadFrom_def ReadSequence_def Buffer_ReadFrom_def TPCI_defs Let_def)

lemma ReadFrom_data_short:
  assumes "pending r = [head]"
    and "drop_bit 6 head AND 3 = 0 \<or> drop_bit 6 head AND 3 = 1"
    and "fault r = None"
  shows "ReadFrom r = (Inl ErrDataUnitTooShort, r\<lparr>pending := []\<rparr>)"
  using assms by (auto simp add: ReadFrom_def ReadSequence_def Buffer_ReadFrom_def TPCI_defs Let_def)

lemma ReadFrom_data_one:
  assumes "pending r = [head, d]"
    and "drop_bit 6 head AND 3 = 0 \<or> drop_bit 6 head AND 3 = 1"
    and "fault r = None"
  shows "ReadFrom r =
    (Inr \<lparr>PacketType = drop_bit 6 head AND 3, SeqNumber = drop_bit 2 head AND 15, Control = 0,
          Info = push_bit 2 (head AND 3) OR (drop_bit 6 d AND 3), Data = [d AND 63]\<rparr>,
     r\<lparr>pending := []\<rparr>)"
  using assms by (auto simp add: ReadFrom_def ReadSequence_def Buffer_ReadFrom_def TPCI_defs Let_def)

lemma ReadFrom_data_long:
  assumes "pending r = head # d # d' # ds"
    and "drop_bit 6 head AND 3 = 0 \<or> drop_bit 6 head AND 3 = 1"
    and "fault r = None"
  shows "ReadFrom r =
    (Inr \<lparr>PacketType = drop_bit 6 head AND 3, SeqNumber = drop_bit 2 head AND 15, Control = 0,
          Info = push_bit 2 (head AND 3) OR (drop_bit 6 d AND 3), Data = d' # ds\<rparr>,
     r\<lparr>pending := []\<rparr>)"
  using assms by (auto simp add: ReadFrom_def ReadSequence_def Buffer_ReadFrom_def TPCI_defs Let_def)

lemma encode_buffer: "encode t = WriteTo_buffer t"
  by (simp add: encode_def WriteTo_def Write_def bytes_Writer_def)

lemma WriteTo_buffer_control:
  assumes "PacketType t = 2 \<or> PacketType t = 3"
  shows "WriteTo_buffer t =
    [(push_bit 6 (PacketType t AND 3) OR push_bit 2 (SeqNumber t AND 15)) OR (Control t AND 3)]"
  using assms by (auto simp add: WriteTo_buffer_def TPCI_defs Let_def)

lemma WriteTo_buffer_data_empty:
  assumes "PacketType t = 0 \<or> PacketType t = 1" and "Data t = []"
  shows "WriteTo_buffer t =
    [(push_bit 6 (PacketType t AND 3) OR push_bit 2 (SeqNumber t AND 15)) OR (drop_bit 2 (Info t) AND 3),
     push_bit 6 (Info t AND 3)]"
  using assms by (auto simp add: WriteTo_buffer_def TPCI_defs Let_def)

lemma WriteTo_buffer_data_nonempty:
  assumes "PacketType t = 0 \<or> PacketType t = 1" and "Data t = d # ds"
  shows "WriteTo_buffer t =
    ((push_bit 6 (PacketType t AND 3) OR push_bit 2 (SeqNumber t AND 15)) OR (drop_bit 2 (Info t) AND 3))
    # ((d AND 63) OR push_bit 6 (Info t AND 3)) # ds"
  using assms by (auto simp add: WriteTo_buffer_def TPCI_defs Let_def)

lemma data_kind_mask: "(p::byte) = 0 \<or> p = 1 \<Longrightarrow> p AND 3 = p"
  by auto

lemma control_kind_mask: "(p::byte) = 2 \<or> p = 3 \<Longrightarrow> p AND 3 = p"
  by auto

text \<open>Every run of \<open>ReadFrom\<close> takes exactly one of six paths.\<close>

lemma ReadFrom_outcomes [case_names exhausted control fault short one long]:
  obtains
    "pending r = []"
      "ReadFrom r = (Inl (case fault r of None \<Rightarrow> TruncatedInput | Some e \<Rightarrow> IoFailure e), r)"
  | head rest where "pending r = head # rest"
      "drop_bit 6 head AND 3 = 2 \<or> drop_bit 6 head AND 3 = 3"
      "ReadFrom r =
        (Inr \<lparr>PacketType = drop_bit 6 head AND 3, SeqNumber = drop_bit 2 head AND 15,
              Control = head AND 3, Info = 0, Data = []\<rparr>, r\<lparr>pending := rest\<rparr>)"
  | head rest e where "pending r = head # rest"
      "drop_bit 6 head AND 3 = 0 \<or> drop_bit 6 head AND 3 = 1"
      "fault r = Some e"
      "ReadFrom r = (Inl (IoFailure e), r\<lparr>pending := []\<rparr>)"
  | head where "pending r = [head]"
      "drop_bit 6 head AND 3 = 0 \<or> drop_bit 6 head AND 3 = 1"
      "fault r = None"
      "ReadFrom r = (Inl ErrDataUnitTooShort, r\<lparr>pending := []\<rparr>)"
  | head d where "pending r = [head, d]"
      "drop_bit 6 head AND 3 = 0 \<or> drop_bit 6 head AND 3 = 1"
      "fault r = None"
      "ReadFrom r =
        (Inr \<lparr>PacketType = drop_bit 6 head AND 3, SeqNumber = drop_bit 2 head AND 15,
              Control = 0, Info = push_bit 2 (head AND 3) OR (drop_bit 6 d AND 3),
              Data = [d AND 63]\<rparr>, r\<lparr>pending := []\<rparr>)"
  | head d d' ds where "pending r = head # d # d' # ds"
      "drop_bit 6 head AND 3 = 0 \<or> drop_bit 6 head AND 3 = 1"
      "fault r = None"
      "ReadFrom r =
        (Inr \<lparr>PacketType = drop_bit 6 head AND 3, SeqNumber = drop_bit 2 head AND 15,
              Control = 0, Info = push_bit 2 (head AND 3) OR (drop_bit 6 d AND 3),
              Data = d' # ds\<rparr>, r\<lparr>pending := []\<rparr>)"
proof (cases "pending r")
  case Nil
  then show ?thesis using that(1) ReadFrom_exhausted by blast
next
  case (Cons h rest)
  note kinds = two_bit_cases [of "drop_bit 6 h"]
  show ?thesis
  proof (cases "drop_bit 6 h AND 3 = 2 \<or> drop_bit 6 h AND 3 = 3")
    case True
    with Cons show ?thesis using that(2) ReadFrom_control by blast
  next
    case False
    with kinds have data: "drop_bit 6 h AND 3 = 0 \<or> drop_bit 6 h AND 3 = 1" by blast
    show ?thesis
    proof (cases "fault r")
      case (Some e)
      with Cons data show ?thesis using that(3) ReadFrom_data_fault by blast
    next
      case None
      show ?thesis
      proof (cases rest)
        case Nil
        with Cons data None show ?thesis using that(4) ReadFrom_data_short by blast
      next
        case c1: (Cons d ds)
        show ?thesis
        proof (cases ds)
          case Nil
          with Cons c1 data None show ?thesis using that(5) ReadFrom_data_one by blast
        next
          case c2: (Cons d' ds')
          with Cons c1 data None show ?thesis using that(6) ReadFrom_data_long by blast
        qed
      qed
    qed
  qed
qed

subsection \<open>Encoding then decoding a data packet\<close>

lemma data_header_fields:
  assumes "PacketType t = 0 \<or> PacketType t = 1"
  defines "head \<equiv> (push_bit 6 (PacketType t AND 3) OR push_bit 2 (SeqNumber t AND 15)) OR
                  (drop_bit 2 (Info t) AND 3)"
  shows "drop_bit 6 head AND 3 = PacketType t"
    and "drop_bit 2 head AND 15 = SeqNumber t AND 15"
    and "head AND 3 = drop_bit 2 (Info t) AND 3"
proof -
  have "drop_bit 6 head AND 3 = PacketType t AND 3"
    unfolding head_def by (rule header_kind)
  with assms(1) show "drop_bit 6 head AND 3 = PacketType t"
    by (simp only: data_kind_mask)
  show "drop_bit 2 head AND 15 = SeqNumber t AND 15"
    unfolding head_def by (rule header_seq)
  show "head AND 3 = drop_bit 2 (Info t) AND 3"
    unfolding head_def by (rule header_low)
qed

lemma decode_encode_data_long:
  assumes "PacketType t = 0 \<or> PacketType t = 1" and "Data t = d # d' # ds"
  shows "decode (encode t) =
    Inr \<lparr>PacketType = PacketType t, SeqNumber = SeqNumber t AND 15, Control = 0,
         Info = Info t AND 15, Data = d' # ds\<rparr>"
proof -
  define head where
    "head = (push_bit 6 (PacketType t AND 3) OR push_bit 2 (SeqNumber t AND 15)) OR
            (drop_bit 2 (Info t) AND 3)"
  define c where "c = (d AND 63) OR push_bit 6 (Info t AND 3)"
  note f = data_header_fields [OF assms(1), folded head_def]
  have enc: "encode t = head # c # d' # ds"
    using assms by (simp add: encode_buffer WriteTo_buffer_data_nonempty head_def c_def)
  have "ReadFrom (bytes_Reader (head # c # d' # ds)) =
    (Inr \<lparr>PacketType = drop_bit 6 head AND 3, SeqNumber = drop_bit 2 head AND 15, Control = 0,
          Info = push_bit 2 (head AND 3) OR (drop_bit 6 c AND 3), Data = d' # ds\<rparr>,
     (bytes_Reader (head # c # d' # ds))\<lparr>pending := []\<rparr>)"
    using assms(1) f(1) by (intro ReadFrom_data_long) (simp_all add: bytes_Reader_def)
  moreover have "drop_bit 6 c AND 3 = Info t AND 3"
    unfolding c_def by (rule continuation_high)
  then have "push_bit 2 (head AND 3) OR (drop_bit 6 c AND 3) = Info t AND 15"
    by (simp only: f(3) info_join)
  ultimately show ?thesis
    by (simp only: decode_def enc f(1,2) fst_conv)
qed

lemma decode_encode_data_one:
  assumes "PacketType t = 0 \<or> PacketType t = 1" and "Data t = [d]"
  shows "decode (encode t) =
    Inr \<lparr>PacketType = PacketType t, SeqNumber = SeqNumber t AND 15, Control = 0,
         Info = Info t AND 15, Data = [d AND 63]\<rparr>"
proof -
  define head where
    "head = (push_bit 6 (PacketType t AND 3) OR push_bit 2 (SeqNumber t AND 15)) OR
            (drop_bit 2 (Info t) AND 3)"
  define c where "c = (d AND 63) OR push_bit 6 (Info t AND 3)"
  note f = data_header_fields [OF assms(1), folded head_def]
  have enc: "encode t = [head, c]"
    using assms by (simp add: encode_buffer WriteTo_buffer_data_nonempty head_def c_def)
  have "ReadFrom (bytes_Reader [head, c]) =
    (Inr \<lparr>PacketType = drop_bit 6 head AND 3, SeqNumber = drop_bit 2 head AND 15, Control = 0,
          Info = push_bit 2 (head AND 3) OR (drop_bit 6 c AND 3), Data = [c AND 63]\<rparr>,
     (bytes_Reader [head, c])\<lparr>pending := []\<rparr>)"
    using assms(1) f(1) by (intro ReadFrom_data_one) (simp_all add: bytes_Reader_def)
  moreover have "drop_bit 6 c AND 3 = Info t AND 3"
    unfolding c_def by (rule continuation_high)
  then have "push_bit 2 (head AND 3) OR (drop_bit 6 c AND 3) = Info t AND 15"
    by (simp only: f(3) info_join)
  moreover have "c AND 63 = d AND 63"
    unfolding c_def by (rule continuation_low)
  ultimately show ?thesis
    by (simp only: decode_def enc f(1,2) fst_conv)
qed

lemma decode_encode_data_empty:
  assumes "PacketType t = 0 \<or> PacketType t = 1" and "Data t = []"
  shows "decode (encode t) =
    Inr \<lparr>PacketType = PacketType t, SeqNumber = SeqNumber t AND 15, Control = 0,
         Info = Info t AND 15, Data = [0]\<rparr>"
proof -
  define head where
    "head = (push_bit 6 (PacketType t AND 3) OR push_bit 2 (SeqNumber t AND 15)) OR
            (drop_bit 2 (Info t) AND 3)"
  define c where "c = push_bit 6 (Info t AND 3)"
  note f = data_header_fields [OF assms(1), folded head_def]
  have enc: "encode t = [head, c]"
    using assms by (simp add: encode_buffer WriteTo_buffer_data_empty head_def c_def)
  have "ReadFrom (bytes_Reader [head, c]) =
    (Inr \<lparr>PacketType = drop_bit 6 head AND 3, SeqNumber = drop_bit 2 head AND 15, Control = 0,
          Info = push_bit 2 (head AND 3) OR (drop_bit 6 c AND 3), Data = [c AND 63]\<rparr>,
     (bytes_Reader [head, c])\<lparr>pending := []\<rparr>)"
    using assms(1) f(1) by (intro ReadFrom_data_one) (simp_all add: bytes_Reader_def)
  moreover have "drop_bit 6 c AND 3 = Info t AND 3"
    unfolding c_def by (rule synthetic_high)
  then have "push_bit 2 (head AND 3) OR (drop_bit 6 c AND 3) = Info t AND 15"
    by (simp only: f(3) info_join)
  moreover have "c AND 63 = 0"
    unfolding c_def by (rule synthetic_low)
  ultimately show ?thesis
    by (simp only: decode_def enc f(1,2) fst_conv)
qed

subsection \<open>The encoder reads only the masked fields\<close>

lemma WriteTo_buffer_masked:
  assumes "PacketType t' = PacketType t" and "Info t' = Info t" and "Data t' = Data t"
    and "SeqNumber t' AND 15 = SeqNumber t AND 15" and "Control t' AND 3 = Control t AND 3"
  shows "WriteTo_buffer t' = WriteTo_buffer t"
  using assms by (simp only: WriteTo_buffer_def)

text \<open>The header byte that \<open>WriteTo\<close> puts first, on each of its three paths.\<close>

lemma hd_WriteTo_buffer:
  "WriteTo_buffer t \<noteq> [] \<and>
   hd (WriteTo_buffer t) =
     (push_bit 6 (PacketType t AND 3) OR push_bit 2 (SeqNumber t AND 15)) OR
     ((if PacketType t = 2 \<or> PacketType t = 3 then Control t
       else if PacketType t = 0 \<or> PacketType t = 1 then drop_bit 2 (Info t)
       else 0) AND 3)"
proof (cases "PacketType t = 2 \<or> PacketType t = 3")
  case True
  then show ?thesis by (simp add: WriteTo_buffer_control)
next
  case control: False
  show ?thesis
  proof (cases "PacketType t = 0 \<or> PacketType t = 1")
    case True
    then show ?thesis
      by (cases "Data t")
        (auto simp: WriteTo_buffer_data_empty WriteTo_buffer_data_nonempty)
  next
    case False
    with control show ?thesis
      by (simp add: WriteTo_buffer_def TPCI_defs Let_def)
  qed
qed

section \<open>Decoding an empty input\<close>

text \<open>
  Claim C8. Decoding a zero-length input fails: the source is exhausted before the header
  byte is available, and \<open>ReadFrom\<close> returns the \<open>TruncatedInput\<close> error of
  \<open>ReadSequence\<close> to the caller; nothing is consumed.
\<close>

theorem ReadFrom_zero_length_input:
  "ReadFrom (bytes_Reader []) = (Inl TruncatedInput, bytes_Reader []) \<and>
   decode [] = Inl TruncatedInput"
  by (simp add: decode_def ReadFrom_def io_defs)

section \<open>Decoding a control packet\<close>

text \<open>
  Claim C6. For every input whose header byte has a control-variant packet kind in bits
  7 to 6, decoding succeeds, sets \<open>Control\<close> to bits 1 to 0 of the header byte, leaves
  \<open>Info\<close> zero and \<open>Data\<close> empty, and consumes no byte beyond the header byte,
  whatever follows it in the source (further bytes, end of stream or a failure).
\<close>

theorem ReadFrom_control_packet:
  assumes "pending r = head # rest"
    and "drop_bit 6 head AND 3 = UnnumberedControlPacket \<or>
         drop_bit 6 head AND 3 = NumberedControlPacket"
  shows "ReadFrom r =
    (Inr \<lparr>PacketType = drop_bit 6 head AND 3, SeqNumber = drop_bit 2 head AND 15,
          Control = head AND 3, Info = 0, Data = []\<rparr>,
     r\<lparr>pending := rest\<rparr>)"
  using assms by (simp add: ReadFrom_control TPCI_defs)

theorem ReadFrom_control_packet_witness:
  "ReadFrom \<lparr>pending = [0xC6, 0x65, 0xAB], fault = Some 5\<rparr> =
    (Inr \<lparr>PacketType = NumberedControlPacket, SeqNumber = 1, Control = 2, Info = 0, Data = []\<rparr>,
     \<lparr>pending = [0x65, 0xAB], fault = Some 5\<rparr>)"
  using ReadFrom_control_packet
    [of "\<lparr>pending = [0xC6, 0x65, 0xAB], fault = Some 5\<rparr>" "0xC6" "[0x65, 0xAB]"]
  by (simp add: TPCI_defs)

section \<open>The error paths of the decoder\<close>

text \<open>
  Claim C5. An input that consists of a header byte with a data-variant packet kind in
  bits 7 to 6 and of nothing more makes decoding fail with \<open>ErrDataUnitTooShort\<close>, and
  no other input does: the error is returned for exactly those inputs. The first part
  states this for a byte sequence, the second for any source, where the source must also
  end without a failure of its own (such a failure is returned instead).
\<close>

theorem ReadFrom_DataUnitTooShort_iff:
  "(decode bs = Inl ErrDataUnitTooShort \<longleftrightarrow>
      (\<exists>head. bs = [head] \<and>
         (drop_bit 6 head AND 3 = UnnumberedDataPacket \<or>
          drop_bit 6 head AND 3 = NumberedDataPacket))) \<and>
   (fst (ReadFrom r) = Inl ErrDataUnitTooShort \<longleftrightarrow>
      (\<exists>head. pending r = [head] \<and>
         (drop_bit 6 head AND 3 = UnnumberedDataPacket \<or>
          drop_bit 6 head AND 3 = NumberedDataPacket)) \<and> fault r = None)"
proof -
  have general: "fst (ReadFrom r) = Inl ErrDataUnitTooShort \<longleftrightarrow>
      (\<exists>head. pending r = [head] \<and>
         (drop_bit 6 head AND 3 = UnnumberedDataPacket \<or>
          drop_bit 6 head AND 3 = NumberedDataPacket)) \<and> fault r = None" for r
    by (cases r rule: ReadFrom_outcomes) (auto simp: TPCI_defs split: option.splits)
  from general [of "bytes_Reader bs"] general [of r]
  show ?thesis by (simp add: decode_def bytes_Reader_def)
qed

theorem ReadFrom_DataUnitTooShort_iff_witness:
  "decode [0x75] = Inl ErrDataUnitTooShort \<and>
   decode [0x75, 0x65] \<noteq> Inl ErrDataUnitTooShort \<and>
   decode [0xC6] \<noteq> Inl ErrDataUnitTooShort \<and>
   decode [] \<noteq> Inl ErrDataUnitTooShort"
  using ReadFrom_DataUnitTooShort_iff [of "[0x75]"] ReadFrom_DataUnitTooShort_iff [of "[0x75, 0x65]"]
    ReadFrom_DataUnitTooShort_iff [of "[0xC6]"] ReadFrom_DataUnitTooShort_iff [of "[]"]
  by (simp add: TPCI_defs)

text \<open>
  Claim C9. The two-bit packet-kind field is exhaustive: bits 7 to 6 of every header byte
  are one of the four packet kinds, so the return after the switch is never reached and
  \<open>ReadFrom\<close> never fails with the \<open>Unreachable\<close> error.
\<close>

theorem ReadFrom_never_Unreachable:
  "fst (ReadFrom r) \<noteq> Inl Unreachable \<and>
   (drop_bit 6 head AND 3 = UnnumberedDataPacket \<or>
    drop_bit 6 head AND 3 = NumberedDataPacket \<or>
    drop_bit 6 head AND 3 = UnnumberedControlPacket \<or>
    drop_bit 6 (head::byte) AND 3 = NumberedControlPacket)"
proof
  show "fst (ReadFrom r) \<noteq> Inl Unreachable"
    by (cases r rule: ReadFrom_outcomes) (simp_all split: option.split)
next
  show "drop_bit 6 head AND 3 = UnnumberedDataPacket \<or>
    drop_bit 6 head AND 3 = NumberedDataPacket \<or>
    drop_bit 6 head AND 3 = UnnumberedControlPacket \<or>
    drop_bit 6 (head::byte) AND 3 = NumberedControlPacket"
    using two_bit_cases [of "drop_bit 6 head"] by (simp add: TPCI_defs)
qed

section \<open>What a successful decode returns\<close>

text \<open>
  Claim C10. After every successful decode the inactive fields are normalized, whatever
  the input bytes were: a data-variant result has \<open>Control = 0\<close> and a payload of at least
  one byte (never the empty payload), and a control-variant result has \<open>Info = 0\<close> and the
  empty payload.
\<close>

theorem ReadFrom_normalizes_inactive_fields:
  assumes "ReadFrom r = (Inr t, r')"
  shows "(PacketType t = UnnumberedDataPacket \<or> PacketType t = NumberedDataPacket \<longrightarrow>
            Control t = 0 \<and> length (Data t) \<ge> 1) \<and>
         (PacketType t = UnnumberedControlPacket \<or> PacketType t = NumberedControlPacket \<longrightarrow>
            Info t = 0 \<and> Data t = [])"
  using assms by (cases r rule: ReadFrom_outcomes) (auto simp: TPCI_defs)

theorem ReadFrom_normalizes_inactive_fields_witness:
  "ReadFrom (bytes_Reader [0x77, 0xFF]) =
     (Inr \<lparr>PacketType = NumberedDataPacket, SeqNumber = 13, Control = 0, Info = 15,
           Data = [0x3F]\<rparr>, bytes_Reader []) \<and>
   Control \<lparr>PacketType = NumberedDataPacket, SeqNumber = 13, Control = 0, Info = 15,
           Data = [0x3F]\<rparr> = 0 \<and>
   length (Data \<lparr>PacketType = NumberedDataPacket, SeqNumber = 13, Control = 0, Info = 15,
           Data = [0x3F]\<rparr>) \<ge> 1 \<and>
   ReadFrom (bytes_Reader [0xFF, 0xFF]) =
     (Inr \<lparr>PacketType = NumberedControlPacket, SeqNumber = 15, Control = 3, Info = 0,
           Data = []\<rparr>, bytes_Reader [0xFF]) \<and>
   Info \<lparr>PacketType = NumberedControlPacket, SeqNumber = 15, Control = 3, Info = 0,
           Data = []\<rparr> = 0 \<and>
   Data \<lparr>PacketType = NumberedControlPacket, SeqNumber = 15, Control = 3, Info = 0,
           Data = []\<rparr> = []"
proof -
  have d: "ReadFrom (bytes_Reader [0x77, 0xFF]) =
     (Inr \<lparr>PacketType = NumberedDataPacket, SeqNumber = 13, Control = 0, Info = 15,
           Data = [0x3F]\<rparr>, bytes_Reader [])"
    by (simp add: ReadFrom_def io_defs TPCI_defs)
  have c: "ReadFrom (bytes_Reader [0xFF, 0xFF]) =
     (Inr \<lparr>PacketType = NumberedControlPacket, SeqNumber = 15, Control = 3, Info = 0,
           Data = []\<rparr>, bytes_Reader [0xFF])"
    by (simp add: ReadFrom_def io_defs TPCI_defs)
  from ReadFrom_normalizes_inactive_fields [OF d] ReadFrom_normalizes_inactive_fields [OF c] d c
  show ?thesis by simp
qed

section \<open>Round trips\<close>

text \<open>
  Claim C2. For every control-variant TPDU whose \<open>SeqNumber\<close> fits in four bits, whose
  \<open>Control\<close> fits in two bits and whose inactive fields \<open>Info\<close> and \<open>Data\<close> are zero and
  empty, decoding the bytes that \<open>WriteTo\<close> produces gives back a TPDU equal to the
  original in every field.
\<close>

theorem control_round_trip:
  assumes "PacketType t = UnnumberedControlPacket \<or> PacketType t = NumberedControlPacket"
    and "SeqNumber t \<le> 15" and "Control t \<le> 3"
    and "Info t = 0" and "Data t = []"
  shows "decode (encode t) = Inr t"
proof -
  from assms(1) have kind: "PacketType t = 2 \<or> PacketType t = 3"
    by (simp add: TPCI_defs)
  define head where
    "head = (push_bit 6 (PacketType t AND 3) OR push_bit 2 (SeqNumber t AND 15)) OR (Control t AND 3)"
  have enc: "encode t = [head]"
    using kind by (simp add: encode_buffer WriteTo_buffer_control head_def)
  have "drop_bit 6 head AND 3 = PacketType t AND 3"
    unfolding head_def by (rule header_kind)
  with kind have k: "drop_bit 6 head AND 3 = PacketType t"
    by (simp only: control_kind_mask)
  have "drop_bit 2 head AND 15 = SeqNumber t AND 15"
    unfolding head_def by (rule header_seq)
  with assms(2) have s: "drop_bit 2 head AND 15 = SeqNumber t"
    by (simp only: le_15_and_15)
  have "head AND 3 = Control t AND 3"
    unfolding head_def by (rule header_low)
  with assms(3) have c: "head AND 3 = Control t"
    by (simp only: le_3_and_3)
  have "ReadFrom (bytes_Reader [head]) =
    (Inr \<lparr>PacketType = drop_bit 6 head AND 3, SeqNumber = drop_bit 2 head AND 15,
          Control = head AND 3, Info = 0, Data = []\<rparr>, (bytes_Reader [head])\<lparr>pending := []\<rparr>)"
    using kind k by (intro ReadFrom_control) (simp_all add: bytes_Reader_def)
  then have "decode (encode t) =
    Inr \<lparr>PacketType = PacketType t, SeqNumber = SeqNumber t, Control = Control t,
         Info = Info t, Data = Data t\<rparr>"
    by (simp add: decode_def enc k s c assms(4,5))
  then show ?thesis by simp
qed

theorem control_round_trip_witness:
  "decode (encode \<lparr>PacketType = NumberedControlPacket, SeqNumber = 13, Control = 2, Info = 0, Data = []\<rparr>)
     = Inr \<lparr>PacketType = NumberedControlPacket, SeqNumber = 13, Control = 2, Info = 0, Data = []\<rparr>"
  by (rule control_round_trip) simp_all

text \<open>
  Claim C1, as the code has it. For every data-variant TPDU whose payload has at least two
  bytes, decoding the bytes that \<open>WriteTo\<close> produces gives back the packet kind, the
  sequence number masked to four bits and \<open>Info\<close> masked to four bits, hence \<open>Info\<close> itself
  whenever it is one of the sixteen codes 0 to 15; \<open>Control\<close> comes back as 0 and the payload
  comes back without its first byte, so the result never equals the original.
\<close>

theorem data_long_round_trip:
  assumes "PacketType t = UnnumberedDataPacket \<or> PacketType t = NumberedDataPacket"
    and "length (Data t) \<ge> 2"
  shows "decode (encode t) =
           Inr \<lparr>PacketType = PacketType t, SeqNumber = SeqNumber t AND 15, Control = 0,
                Info = Info t AND 15, Data = tl (Data t)\<rparr> \<and>
         (Info t \<le> 15 \<longrightarrow>
            decode (encode t) =
              Inr \<lparr>PacketType = PacketType t, SeqNumber = SeqNumber t AND 15, Control = 0,
                   Info = Info t, Data = tl (Data t)\<rparr>) \<and>
         decode (encode t) \<noteq> Inr t"
proof -
  from assms(1) have kind: "PacketType t = 0 \<or> PacketType t = 1"
    by (simp add: TPCI_defs)
  from assms(2) obtain d d' ds where data: "Data t = d # d' # ds"
    by (cases "Data t"; cases "tl (Data t)") auto
  have rt: "decode (encode t) =
           Inr \<lparr>PacketType = PacketType t, SeqNumber = SeqNumber t AND 15, Control = 0,
                Info = Info t AND 15, Data = tl (Data t)\<rparr>"
    using decode_encode_data_long [OF kind data] data by simp
  moreover have "decode (encode t) \<noteq> Inr t"
  proof
    assume "decode (encode t) = Inr t"
    with rt have "Data t = tl (Data t)" by (cases t) simp
    with data show False by simp
  qed
  ultimately show ?thesis by (simp add: le_15_and_15)
qed

theorem data_long_round_trip_witness:
  "decode (encode \<lparr>PacketType = NumberedDataPacket, SeqNumber = 29, Control = 3,
                   Info = 10, Data = [0xFF, 0xAB, 0xCD]\<rparr>) =
     Inr \<lparr>PacketType = NumberedDataPacket, SeqNumber = 13, Control = 0, Info = 10,
          Data = [0xAB, 0xCD]\<rparr>"
  using data_long_round_trip
    [of "\<lparr>PacketType = NumberedDataPacket, SeqNumber = 29, Control = 3,
          Info = 10, Data = [0xFF, 0xAB, 0xCD]\<rparr>"]
  by simp

text \<open>
  Claim C1 as stated promises \<open>Info\<close> back exactly for every data-variant TPDU. \<open>Info\<close> is
  a byte, and the encoder keeps its low four bits only: the value 16 comes back as 0.
\<close>

theorem data_long_round_trip_counterexample:
  "decode (encode \<lparr>PacketType = UnnumberedDataPacket, SeqNumber = 0, Control = 0,
                   Info = 16, Data = [1, 2]\<rparr>) =
     Inr \<lparr>PacketType = UnnumberedDataPacket, SeqNumber = 0, Control = 0, Info = 0, Data = [2]\<rparr> \<and>
   Info \<lparr>PacketType = UnnumberedDataPacket, SeqNumber = 0, Control = 0, Info = 0, Data = [2]\<rparr> \<noteq>
   Info \<lparr>PacketType = UnnumberedDataPacket, SeqNumber = 0, Control = 0, Info = 16, Data = [1, 2]\<rparr>"
  by (simp add: decode_def encode_def WriteTo_def WriteTo_buffer_def ReadFrom_def io_defs TPCI_defs)

text \<open>
  Claim C3, as the code has it. For every data-variant TPDU whose payload is empty or is a
  single byte in the range 0 to 63, decoding the bytes that \<open>WriteTo\<close> produces gives back
  \<open>Info\<close> masked to four bits, hence \<open>Info\<close> itself whenever it is one of the sixteen codes
  0 to 15; a one-byte payload comes back as it was, and the empty payload comes back as
  the single byte 0.
\<close>

theorem data_short_round_trip:
  assumes "PacketType t = UnnumberedDataPacket \<or> PacketType t = NumberedDataPacket"
    and "Data t = [] \<or> (\<exists>b. Data t = [b] \<and> b \<le> 63)"
  shows "decode (encode t) =
           Inr \<lparr>PacketType = PacketType t, SeqNumber = SeqNumber t AND 15, Control = 0,
                Info = Info t AND 15, Data = (if Data t = [] then [0] else Data t)\<rparr> \<and>
         (Info t \<le> 15 \<longrightarrow>
            decode (encode t) =
              Inr \<lparr>PacketType = PacketType t, SeqNumber = SeqNumber t AND 15, Control = 0,
                   Info = Info t, Data = (if Data t = [] then [0] else Data t)\<rparr>)"
proof -
  from assms(1) have kind: "PacketType t = 0 \<or> PacketType t = 1"
    by (simp add: TPCI_defs)
  have "decode (encode t) =
           Inr \<lparr>PacketType = PacketType t, SeqNumber = SeqNumber t AND 15, Control = 0,
                Info = Info t AND 15, Data = (if Data t = [] then [0] else Data t)\<rparr>"
  proof (cases "Data t = []")
    case True
    with decode_encode_data_empty [OF kind] show ?thesis by simp
  next
    case False
    with assms(2) obtain b where b: "Data t = [b]" "b \<le> 63" by blast
    from decode_encode_data_one [OF kind b(1)] b show ?thesis
      by (simp add: le_63_and_63)
  qed
  then show ?thesis by (simp add: le_15_and_15)
qed

theorem data_short_round_trip_witness:
  "decode (encode \<lparr>PacketType = NumberedDataPacket, SeqNumber = 29, Control = 3,
                   Info = 10, Data = [63]\<rparr>) =
     Inr \<lparr>PacketType = NumberedDataPacket, SeqNumber = 13, Control = 0, Info = 10, Data = [63]\<rparr> \<and>
   decode (encode \<lparr>PacketType = UnnumberedDataPacket, SeqNumber = 2, Control = 0,
                   Info = 15, Data = []\<rparr>) =
     Inr \<lparr>PacketType = UnnumberedDataPacket, SeqNumber = 2, Control = 0, Info = 15, Data = [0]\<rparr>"
  using data_short_round_trip
    [of "\<lparr>PacketType = NumberedDataPacket, SeqNumber = 29, Control = 3, Info = 10, Data = [63]\<rparr>"]
    data_short_round_trip
    [of "\<lparr>PacketType = UnnumberedDataPacket, SeqNumber = 2, Control = 0, Info = 15, Data = []\<rparr>"]
  by simp

text \<open>
  Claim C3 as stated promises \<open>Info\<close> back exactly for every such TPDU; with a one-byte
  payload and \<open>Info = 128\<close> the decoder returns \<open>Info = 0\<close>.
\<close>

theorem data_short_round_trip_counterexample:
  "decode (encode \<lparr>PacketType = NumberedDataPacket, SeqNumber = 0, Control = 0,
                   Info = 0x80, Data = [5]\<rparr>) =
     Inr \<lparr>PacketType = NumberedDataPacket, SeqNumber = 0, Control = 0, Info = 0, Data = [5]\<rparr> \<and>
   Info \<lparr>PacketType = NumberedDataPacket, SeqNumber = 0, Control = 0, Info = 0, Data = [5]\<rparr> \<noteq>
   Info \<lparr>PacketType = NumberedDataPacket, SeqNumber = 0, Control = 0, Info = 0x80, Data = [5]\<rparr>"
  by (simp add: decode_def encode_def WriteTo_def WriteTo_buffer_def ReadFrom_def io_defs TPCI_defs)

section \<open>A concrete decoding\<close>

text \<open>
  Claim C4, as the code has it. The two bytes \<open>0b10001101, 0b01100101\<close> decode to an
  unnumbered control packet with sequence number 3 and control 1, zero \<open>Info\<close> and empty
  payload, and the second byte stays in the source: bits 7 to 6 of the first byte are
  \<open>10\<close>, which is \<open>UnnumberedControlPacket\<close>, and bits 5 to 2 are \<open>0011\<close>. The numbered
  data packet with sequence number 13, \<open>Info = 5\<close> and the one-byte payload
  \<open>0b00100101\<close> is the decoding of \<open>0b01110101, 0b01100101\<close>.
\<close>

theorem decode_scenario_B:
  "ReadFrom (bytes_Reader [0b10001101, 0b01100101]) =
     (Inr \<lparr>PacketType = UnnumberedControlPacket, SeqNumber = 3, Control = 1, Info = 0, Data = []\<rparr>,
      bytes_Reader [0b01100101]) \<and>
   ReadFrom (bytes_Reader [0b01110101, 0b01100101]) =
     (Inr \<lparr>PacketType = NumberedDataPacket, SeqNumber = 13, Control = 0, Info = 5,
           Data = [0b00100101]\<rparr>,
      bytes_Reader [])"
  by (simp add: ReadFrom_def io_defs TPCI_defs)

text \<open>
  Claim C4 as stated: the same two bytes would decode to a numbered data packet with
  sequence number 13, \<open>Info = 5\<close> and payload \<open>0b00100101\<close>. Every one of these fields
  differs from what \<open>ReadFrom\<close> returns.
\<close>

theorem decode_scenario_B_counterexample:
  "decode [0b10001101, 0b01100101] =
     Inr \<lparr>PacketType = UnnumberedControlPacket, SeqNumber = 3, Control = 1, Info = 0, Data = []\<rparr> \<and>
   UnnumberedControlPacket \<noteq> NumberedDataPacket \<and> (3::byte) \<noteq> 13 \<and> (0::APCI) \<noteq> 5 \<and>
   ([]::byte list) \<noteq> [0b00100101]"
  by (simp add: decode_def ReadFrom_def io_defs TPCI_defs)

section \<open>Masking in the encoder\<close>

text \<open>
  Claim C7. The encoder masks \<open>SeqNumber\<close> to four bits and \<open>Control\<close> to two bits and
  rejects nothing. Two TPDUs that differ only in bits of \<open>SeqNumber\<close> above bit 3 or in
  bits of \<open>Control\<close> above bit 1 are written as the same bytes, and every TPDU is written as
  the TPDU with both fields masked is. What is written is the masked value: bits 5 to 2 of
  the first byte are \<open>SeqNumber AND 15\<close> for every TPDU, and for a control packet the one
  byte written has \<open>Control AND 3\<close> in bits 1 to 0. Whether \<open>WriteTo\<close> returns an error
  depends on the sink alone, never on a value of the TPDU: on a sink that does not fail it
  returns no error and appends the encoded bytes, which are never empty.
\<close>

theorem WriteTo_masks_fields:
  "(PacketType t' = PacketType t \<and> Info t' = Info t \<and> Data t' = Data t \<and>
    SeqNumber t' AND 15 = SeqNumber t AND 15 \<and> Control t' AND 3 = Control t AND 3 \<longrightarrow>
      encode t' = encode t \<and> WriteTo t' w = WriteTo t w) \<and>
   encode (t\<lparr>SeqNumber := SeqNumber t AND 15, Control := Control t AND 3\<rparr>) = encode t \<and>
   fst (WriteTo t w) = map_option IoFailure (wfault w) \<and>
   encode t \<noteq> [] \<and>
   drop_bit 2 (hd (encode t)) AND 15 = SeqNumber t AND 15 \<and>
   (PacketType t = UnnumberedControlPacket \<or> PacketType t = NumberedControlPacket \<longrightarrow>
      hd (encode t) AND 3 = Control t AND 3 \<and> length (encode t) = 1) \<and>
   (wfault w = None \<longrightarrow> WriteTo t w = (None, w\<lparr>written := written w @ encode t\<rparr>))"
proof (intro conjI impI)
  assume "PacketType t' = PacketType t \<and> Info t' = Info t \<and> Data t' = Data t \<and>
    SeqNumber t' AND 15 = SeqNumber t AND 15 \<and> Control t' AND 3 = Control t AND 3"
  then have buf: "WriteTo_buffer t' = WriteTo_buffer t"
    by (intro WriteTo_buffer_masked) simp_all
  then show "encode t' = encode t" by (simp add: encode_buffer)
  from buf show "WriteTo t' w = WriteTo t w" by (simp add: WriteTo_def)
next
  have "WriteTo_buffer (t\<lparr>SeqNumber := SeqNumber t AND 15, Control := Control t AND 3\<rparr>) =
        WriteTo_buffer t"
    by (rule WriteTo_buffer_masked) (simp_all add: and.assoc)
  then show "encode (t\<lparr>SeqNumber := SeqNumber t AND 15, Control := Control t AND 3\<rparr>) = encode t"
    by (simp add: encode_buffer)
next
  show "fst (WriteTo t w) = map_option IoFailure (wfault w)"
    by (simp add: WriteTo_def Write_def split: option.split)
next
  show "encode t \<noteq> []"
    using hd_WriteTo_buffer [of t] by (simp add: encode_buffer)
next
  show "drop_bit 2 (hd (encode t)) AND 15 = SeqNumber t AND 15"
    unfolding encode_buffer by (simp only: hd_WriteTo_buffer header_seq)
next
  assume "PacketType t = UnnumberedControlPacket \<or> PacketType t = NumberedControlPacket"
  then have kind: "PacketType t = 2 \<or> PacketType t = 3" by (simp add: TPCI_defs)
  then have "hd (encode t) =
     (push_bit 6 (PacketType t AND 3) OR push_bit 2 (SeqNumber t AND 15)) OR (Control t AND 3)"
    by (simp add: encode_buffer WriteTo_buffer_control)
  then show "hd (encode t) AND 3 = Control t AND 3"
    by (simp only: header_low)
  from kind show "length (encode t) = 1"
    by (simp add: encode_buffer WriteTo_buffer_control)
next
  assume "wfault w = None"
  then show "WriteTo t w = (None, w\<lparr>written := written w @ encode t\<rparr>)"
    by (simp add: WriteTo_def Write_def encode_buffer)
qed

theorem WriteTo_masks_fields_witness:
  "encode \<lparr>PacketType = NumberedControlPacket, SeqNumber = 31, Control = 7, Info = 0, Data = []\<rparr> =
   encode \<lparr>PacketType = NumberedControlPacket, SeqNumber = 15, Control = 3, Info = 0, Data = []\<rparr> \<and>
   drop_bit 2
     (hd (encode \<lparr>PacketType = NumberedControlPacket, SeqNumber = 31, Control = 7,
                   Info = 0, Data = []\<rparr>)) AND 15 = (15::byte) \<and>
   hd (encode \<lparr>PacketType = NumberedControlPacket, SeqNumber = 31, Control = 7,
                Info = 0, Data = []\<rparr>) AND 3 = (3::byte) \<and>
   WriteTo \<lparr>PacketType = NumberedControlPacket, SeqNumber = 31, Control = 7, Info = 0, Data = []\<rparr>
       bytes_Writer =
     (None, bytes_Writer\<lparr>written :=
        encode \<lparr>PacketType = NumberedControlPacket, SeqNumber = 31, Control = 7,
                Info = 0, Data = []\<rparr>\<rparr>)"
  using WriteTo_masks_fields
    [of "\<lparr>PacketType = NumberedControlPacket, SeqNumber = 31, Control = 7, Info = 0, Data = []\<rparr>"
        "\<lparr>PacketType = NumberedControlPacket, SeqNumber = 15, Control = 3, Info = 0, Data = []\<rparr>"
        bytes_Writer]
  by (simp add: bytes_Writer_def)

end
